theory Spec2Isabelle
  imports Complex_Main "HOL-Library.Multiset"
begin

section \<open>The data model of \<^verbatim>\<open>polars/dataframe.ts\<close>\<close>

text \<open>
  \<^verbatim>\<open>dataframe.ts\<close> is the TypeScript face of a native table engine: every method of the
  object built by \<^verbatim>\<open>_DataFrame(_df)\<close> prepares arguments and calls a method of the native
  handle \<^verbatim>\<open>_df\<close>. The embedding follows that split. What the TypeScript does (defaults,
  dispatch on argument shapes, checks, \<^verbatim>\<open>throw\<close>) is translated from the source. The native
  methods are not among the sources; the few whose results a property depends on are
  modelled from the specification and marked so, the others appear as the native call
  that the method issues.
\<close>

datatype timeunit = Nanoseconds | Microseconds | Milliseconds

datatype dtype =
    Null | Bool | Int8 | Int16 | Int32 | Int64 | UInt8 | UInt16 | UInt32 | UInt64
  | Float32 | Float64 | Utf8 | Date | Datetime timeunit | Categorical
  | List dtype | Struct "(string \<times> dtype) list"

text \<open>A cell of a column; \<open>None\<close> is a null (the validity bit is off).\<close>

datatype val = BoolV bool | IntV int | StrV string

type_synonym cell = "val option"

text \<open>
  A Series as the methods see it: \<^verbatim>\<open>curr.name\<close>, \<^verbatim>\<open>curr.dtype\<close> and the cells. The field
  of the cells is called \<open>vals\<close>.
\<close>

record series =
  name :: string
  dtype :: dtype
  vals :: "cell list"

text \<open>The state of a native \<^verbatim>\<open>JsDataFrame\<close>: its columns, in order.\<close>

type_synonym frame = "series list"

datatype error =
    ColumnNotFound string
  | DuplicateColumn string
  | LengthMismatch
  | IndexOutOfBounds
  | MissingJoinKey
  | KeyCountMismatch
  | InvalidArgument
  | UnknownAggregate string
  | TypeError

text \<open>\<^verbatim>\<open>get columns() { return _df.columns }\<close>, \<^verbatim>\<open>get width()\<close>, \<^verbatim>\<open>get height()\<close>.\<close>

definition columns :: "frame \<Rightarrow> string list" where
  "columns f = map name f"

definition width :: "frame \<Rightarrow> nat" where
  "width f = length f"

definition height :: "frame \<Rightarrow> nat" where
  "height f = (case f of [] \<Rightarrow> 0 | s # _ \<Rightarrow> length (vals s))"

text \<open>A default parameter (\<^verbatim>\<open>x = d\<close>) or \<^verbatim>\<open>x ?? d\<close>: an argument left out is \<open>None\<close>.\<close>

definition or_default :: "'a option \<Rightarrow> 'a \<Rightarrow> 'a" where
  "or_default x d = (case x of None \<Rightarrow> d | Some v \<Rightarrow> v)"

text \<open>
  An argument that is one name or an array of names (\<^verbatim>\<open>string | string[]\<close>), and
  \<^verbatim>\<open>typeof x === "string" ? [x] : x\<close>, \<^verbatim>\<open>[x].flat(3)\<close>.
\<close>

datatype selection = Column string | Columns "string list"

definition names_of :: "selection \<Rightarrow> string list" where
  "names_of x = (case x of Column c \<Rightarrow> [c] | Columns cs \<Rightarrow> cs)"

text \<open>
  Expressions of the lazy sublanguage are opaque, but for the eight aggregations of
  \<^verbatim>\<open>element()\<close> that \<open>pivot\<close> builds itself.
\<close>

datatype aggregate = AggFirst | AggSum | AggMax | AggMin | AggMean | AggMedian | AggLast | AggCount

datatype expr = Element aggregate | Opaque nat

text \<open>
  Plain JavaScript values, for arguments whose shape a method inspects at run time. Of an
  object only the properties \<^verbatim>\<open>n\<close>, \<^verbatim>\<open>frac\<close> and \<^verbatim>\<open>withReplacement\<close> are ever read;
  \<open>JObj n frac withReplacement\<close> holds them (\<open>JUndefined\<close> for a property that is not there).
  Of a number the methods test the type only; its value is kept as a rational.
\<close>

datatype jsval =
    JUndefined | JNull | JBool bool | JNum rat | JStr string
  | JObj jsval jsval jsval

datatype sort_by = ByColumn string | ByColumns "string list" | ByExpr expr

text \<open>What \<open>pivot\<close> hands over as the aggregation: an expression, or a member that the
  lookup found on \<^verbatim>\<open>Object.prototype\<close>.\<close>

datatype fn_value = FnExpr expr | FnObjectPrototype string

text \<open>
  The calls of native methods whose results are not modelled: the method of the native
  handle, the receiver and the arguments as the TypeScript passes them. A DataFrame method
  that ends in such a call returns what the native method returns for it.
\<close>

datatype ncall =
    NSampleN frame rat jsval bool jsval
  | NSampleFrac frame rat jsval bool jsval
  | NTranspose frame "string option" "string list option"
  | NJoin frame frame "string list option" "string list option" string "string option"
  | NSort frame string bool bool bool
  | NLazySort frame sort_by bool bool
  | NLazyFilter frame expr
  | NPivotExpr frame "string list option" "string list option" "string list option" fn_value
      bool bool "string option"

subsection \<open>head and limit\<close>

text \<open>
  Modelled from the spec: the native \<^verbatim>\<open>_df.head(length)\<close> is not among the sources; it
  returns the first \<open>length\<close> rows, that is, the first \<open>length\<close> cells of every column.
\<close>

definition native_head :: "frame \<Rightarrow> nat \<Rightarrow> frame" where
  "native_head f n = map (\<lambda>s. s\<lparr>vals := take n (vals s)\<rparr>) f"

text \<open>
  \<^verbatim>\<open>head(length = 5) { return wrap("head", length); }\<close> and
  \<^verbatim>\<open>limit: (length = 5) => wrap("head", length)\<close>. An argument that is left out is \<open>None\<close>.
\<close>

definition head :: "frame \<Rightarrow> nat option \<Rightarrow> frame" where
  "head f len = native_head f (case len of None \<Rightarrow> 5 | Some n \<Rightarrow> n)"

definition limit :: "frame \<Rightarrow> nat option \<Rightarrow> frame" where
  "limit f len = native_head f (case len of None \<Rightarrow> 5 | Some n \<Rightarrow> n)"


subsection \<open>sample\<close>

text \<open>
  \<^verbatim>\<open>sample(opts?, frac?, withReplacement = false, seed?)\<close>. \<open>sample_frac\<close> is the tail of
  the body, from \<^verbatim>\<open>if (typeof frac === "number")\<close> to the \<^verbatim>\<open>throw new TypeError\<close>;
  \<open>sample_from\<close> is the body after the test of \<^verbatim>\<open>arguments.length\<close>. The recursive call is
  \<^verbatim>\<open>this.sample(opts.n, opts.frac, opts.withReplacement, seed)\<close>. The \<^verbatim>\<open>TypeError\<close>
  "must specify either 'frac' or 'n'" is the error \<open>InvalidArgument\<close>.
\<close>

definition param_default :: "jsval \<Rightarrow> jsval \<Rightarrow> jsval" where
  "param_default x d = (if x = JUndefined then d else x)"

definition sample_frac :: "frame \<Rightarrow> jsval \<Rightarrow> jsval \<Rightarrow> jsval \<Rightarrow> error + ncall" where
  "sample_frac f frac' withReplacement seed =
     (case frac' of
        JNum q \<Rightarrow> Inr (NSampleFrac f q (param_default withReplacement (JBool False)) False seed)
      | _ \<Rightarrow> Inl InvalidArgument)"

fun sample_from :: "frame \<Rightarrow> jsval \<Rightarrow> jsval \<Rightarrow> jsval \<Rightarrow> jsval \<Rightarrow> error + ncall" where
  "sample_from f (JObj n fr wr) frac' withReplacement seed =
     (if n \<noteq> JUndefined \<or> fr \<noteq> JUndefined then sample_from f n fr wr seed
      else sample_frac f frac' withReplacement seed)"
| "sample_from f (JNum k) frac' withReplacement seed =
     Inr (NSampleN f k (param_default withReplacement (JBool False)) False seed)"
| "sample_from f opts frac' withReplacement seed = sample_frac f frac' withReplacement seed"

text \<open>The arguments of a call, as many as the caller wrote (\<^verbatim>\<open>arguments\<close>).\<close>

definition argument :: "jsval list \<Rightarrow> nat \<Rightarrow> jsval" where
  "argument args i = (if i < length args then args ! i else JUndefined)"

definition sample :: "frame \<Rightarrow> jsval list \<Rightarrow> error + ncall" where
  "sample f args =
     (if length args = 0 then Inr (NSampleN f 1 (JBool False) False JUndefined)
      else sample_from f (argument args 0) (argument args 1) (argument args 2) (argument args 3))"

text \<open>\<^verbatim>\<open>opts?.n\<close> and \<^verbatim>\<open>opts?.frac\<close>, and \<^verbatim>\<open>typeof x === "number"\<close>.\<close>

definition prop_n :: "jsval \<Rightarrow> jsval" where
  "prop_n v = (case v of JObj n fr wr \<Rightarrow> n | _ \<Rightarrow> JUndefined)"

definition prop_frac :: "jsval \<Rightarrow> jsval" where
  "prop_frac v = (case v of JObj n fr wr \<Rightarrow> fr | _ \<Rightarrow> JUndefined)"

definition is_number :: "jsval \<Rightarrow> bool" where
  "is_number v = (case v of JNum q \<Rightarrow> True | _ \<Rightarrow> False)"

subsection \<open>transpose\<close>

text \<open>
  \<^verbatim>\<open>columnNames\<close> is an array, or another iterable such as a generator. An iterator is
  the sequence of the items it yields: item \<open>i\<close> is \<open>it i\<close>, and \<open>None\<close> is \<^verbatim>\<open>done\<close>.
\<close>

datatype column_names = NamesArray "string list" | NamesIterable "nat \<Rightarrow> string option"

text \<open>
  The loop of \<^verbatim>\<open>takeNItems\<close>: \<^verbatim>\<open>for (const item of iterable)\<close> asks for the next item,
  then \<^verbatim>\<open>if (i >= n) break\<close>, then \<^verbatim>\<open>result.push(item); i++\<close>.
\<close>

function takeNItems_loop :: "(nat \<Rightarrow> string option) \<Rightarrow> nat \<Rightarrow> nat \<Rightarrow> string list \<Rightarrow> string list" where
  "takeNItems_loop it n i result =
     (case it i of
        None \<Rightarrow> result
      | Some item \<Rightarrow> if i \<ge> n then result else takeNItems_loop it n (i + 1) (result @ [item]))"
  by pat_completeness auto
termination
  by (relation "measure (\<lambda>(it, n, i, result). n - i)") auto

definition takeNItems :: "(nat \<Rightarrow> string option) \<Rightarrow> nat \<Rightarrow> string list" where
  "takeNItems it n = takeNItems_loop it n 0 []"

record transpose_options =
  includeHeader :: "bool option"
  headerName :: "string option"
  columnNames :: "column_names option"

text \<open>
  Inside a method \<^verbatim>\<open>this\<close> is the proxy, so \<^verbatim>\<open>this.height\<close> is answered by the trap
  \<^verbatim>\<open>get\<close>: on a frame with a column named \<open>height\<close> it is that column's Series, otherwise
  the number of rows.
\<close>

definition this_height :: "frame \<Rightarrow> series + nat" where
  "this_height f =
     (case find (\<lambda>s. name s = ''height'') f of Some s \<Rightarrow> Inl s | None \<Rightarrow> Inr (height f))"

text \<open>
  \<^verbatim>\<open>transpose(options?)\<close>. \<open>cut_by_series\<close> stands for what \<^verbatim>\<open>slice(0, x)\<close> and
  \<^verbatim>\<open>takeNItems(iterable, x)\<close> make of the names when the bound \<open>x\<close> is a Series: that rests
  on the conversion of a Series to a number, which is not among the sources; \<open>None\<close> is a
  loop that does not end. The result \<open>None\<close> of \<open>transpose_df\<close> is a call that does not return.
\<close>

definition transpose_df ::
  "(series \<Rightarrow> column_names \<Rightarrow> string list option) \<Rightarrow> frame \<Rightarrow> transpose_options option
   \<Rightarrow> ncall option" where
  "transpose_df cut_by_series f options =
     (let includeHeader' = or_default (Option.bind options includeHeader) False;
          headeName = or_default (Option.bind options headerName) ''column'';
          keep_names_as = (if includeHeader' then Some headeName else None)
      in case Option.bind options columnNames of
           None \<Rightarrow> Some (NTranspose f keep_names_as None)
         | Some cn \<Rightarrow>
             (case this_height f of
                Inr h \<Rightarrow>
                  (case cn of
                     NamesArray xs \<Rightarrow> Some (NTranspose f keep_names_as (Some (take h xs)))
                   | NamesIterable it \<Rightarrow> Some (NTranspose f keep_names_as (Some (takeNItems it h))))
              | Inl s \<Rightarrow>
                  map_option (\<lambda>ns. NTranspose f keep_names_as (Some ns)) (cut_by_series s cn)))"

text \<open>The column names that a call of the native \<^verbatim>\<open>transpose\<close> receives.\<close>

definition names_passed :: "ncall option \<Rightarrow> string list option" where
  "names_passed r = (case r of Some (NTranspose f k ns) \<Rightarrow> ns | _ \<Rightarrow> None)"

subsection \<open>join\<close>

text \<open>
  The options of \<open>join\<close>. \<^verbatim>\<open>columnOrColumns\<close> (of \<^verbatim>\<open>./utils\<close>, not among the sources)
  turns a column selection into an array of names and leaves a selection that is not given
  undefined; the fields \<open>on\<close>, \<open>leftOn\<close> and \<open>rightOn\<close> hold its results.
\<close>

record join_options =
  how :: "string option"
  on :: "string list option"
  leftOn :: "string list option"
  rightOn :: "string list option"
  suffix :: "string option"

text \<open>
  The \<^verbatim>\<open>TypeError\<close> "You should pass the column to join on as an argument." is the
  error \<open>MissingJoinKey\<close>.
\<close>

definition join_df :: "frame \<Rightarrow> frame \<Rightarrow> join_options \<Rightarrow> error + ncall" where
  "join_df f other options =
     (let how' = or_default (how options) ''inner'' in
      if how' = ''cross'' then Inr (NJoin f other (Some []) (Some []) how' (suffix options))
      else
        let leftOn' = (case on options of Some k \<Rightarrow> Some k | None \<Rightarrow> leftOn options);
            rightOn' = (case on options of Some k \<Rightarrow> Some k | None \<Rightarrow> rightOn options)
        in if (leftOn' \<noteq> None \<and> rightOn' = None) \<or> (rightOn' \<noteq> None \<and> leftOn' = None)
           then Inl MissingJoinKey
           else Inr (NJoin f other leftOn' rightOn' how' (suffix options)))"

text \<open>
  Modelled from the spec: the native \<^verbatim>\<open>_df.join\<close> is not among the sources. Of it the
  model has the check of its keys only: it fails with \<open>MissingJoinKey\<close> when a key list is
  missing and with \<open>KeyCountMismatch\<close> when the two lists differ in arity.
\<close>

definition native_join_check :: "ncall \<Rightarrow> error option" where
  "native_join_check c =
     (case c of
        NJoin a b (Some ls) (Some rs) h s \<Rightarrow>
          if length ls \<noteq> length rs then Some KeyCountMismatch else None
      | NJoin a b l r h s \<Rightarrow> Some MissingJoinKey
      | _ \<Rightarrow> None)"

text \<open>
  The outcome of \<open>join\<close>: the error of the TypeScript, or the error of the native check, or
  the native join that is carried out and whose DataFrame is returned.
\<close>

definition join_outcome :: "frame \<Rightarrow> frame \<Rightarrow> join_options \<Rightarrow> error + ncall" where
  "join_outcome f other options =
     (case join_df f other options of
        Inl e \<Rightarrow> Inl e
      | Inr c \<Rightarrow> (case native_join_check c of Some e \<Rightarrow> Inl e | None \<Rightarrow> Inr c))"

subsection \<open>sort\<close>

text \<open>
  \<^verbatim>\<open>sort(arg, descending = false, maintain_order = false)\<close>. The first argument is the
  columns or the options object \<^verbatim>\<open>{by, descending, maintain_order}\<close>; for the object the
  body is \<^verbatim>\<open>return this.sort(arg.by, arg.descending)\<close>.
\<close>

datatype sort_arg = SortBy sort_by | SortOptions sort_by "bool option" "bool option"

definition sort_columns :: "frame \<Rightarrow> sort_by \<Rightarrow> bool option \<Rightarrow> bool option \<Rightarrow> ncall" where
  "sort_columns f by descending maintain_order =
     (case by of
        ByColumn c \<Rightarrow>
          NSort f c (or_default descending False) True (or_default maintain_order False)
      | _ \<Rightarrow> NLazySort f by (or_default descending False) (or_default maintain_order False))"

definition sort_df :: "frame \<Rightarrow> sort_arg \<Rightarrow> bool option \<Rightarrow> bool option \<Rightarrow> ncall" where
  "sort_df f a descending maintain_order =
     (case a of
        SortOptions by d m \<Rightarrow> sort_columns f by d None
      | SortBy by \<Rightarrow> sort_columns f by descending maintain_order)"

subsection \<open>pivot\<close>

datatype aggregate_func = AggName string | AggExpr expr

record pivot_options =
  pv_values :: "selection option"
  pv_index :: "selection option"
  pv_columns :: "selection option"
  pv_maintainOrder :: "bool option"
  pv_sortColumns :: "bool option"
  pv_aggregateFunc :: "aggregate_func option"
  pv_separator :: "string option"

text \<open>The object literal of \<open>pivot\<close>: its own properties.\<close>

definition aggregate_table :: "(string \<times> expr) list" where
  "aggregate_table =
     [(''first'', Element AggFirst), (''sum'', Element AggSum), (''max'', Element AggMax),
      (''min'', Element AggMin), (''mean'', Element AggMean), (''median'', Element AggMedian),
      (''last'', Element AggLast), (''count'', Element AggCount)]"

text \<open>
  An object literal inherits from \<^verbatim>\<open>Object.prototype\<close>, and \<^verbatim>\<open>obj[key]\<close> reads inherited
  properties too. These are the properties of \<^verbatim>\<open>Object.prototype\<close>; none is null or
  undefined, and none is an \<^verbatim>\<open>Error\<close>.
\<close>

definition object_prototype_keys :: "string list" where
  "object_prototype_keys =
     [''constructor'', ''__defineGetter__'', ''__defineSetter__'', ''hasOwnProperty'',
      ''__lookupGetter__'', ''__lookupSetter__'', ''isPrototypeOf'', ''propertyIsEnumerable'',
      ''toString'', ''valueOf'', ''__proto__'', ''toLocaleString'']"

text \<open>
  \<^verbatim>\<open>{first: ..., ...}[aggregateFunc] ?? new Error(`Unknown aggregate function ...`)\<close>,
  then \<^verbatim>\<open>if (fn instanceof Error) throw fn\<close>.
\<close>

definition resolve_aggregate :: "aggregate_func \<Rightarrow> error + fn_value" where
  "resolve_aggregate a =
     (case a of
        AggExpr e \<Rightarrow> Inr (FnExpr e)
      | AggName s \<Rightarrow>
          (case map_of aggregate_table s of
             Some e \<Rightarrow> Inr (FnExpr e)
           | None \<Rightarrow>
               if s \<in> set object_prototype_keys then Inr (FnObjectPrototype s)
               else Inl (UnknownAggregate s)))"

text \<open>
  \<^verbatim>\<open>pivot(values, options?)\<close>. Destructuring an \<^verbatim>\<open>options\<close> that is undefined throws a
  \<^verbatim>\<open>TypeError\<close>.
\<close>

definition pivot :: "frame \<Rightarrow> selection option \<Rightarrow> pivot_options option \<Rightarrow> error + ncall" where
  "pivot f values' options =
     (case options of
        None \<Rightarrow> Inl TypeError
      | Some opts \<Rightarrow>
          let maintainOrder = or_default (pv_maintainOrder opts) True;
              sortColumns = or_default (pv_sortColumns opts) False;
              aggregateFunc = or_default (pv_aggregateFunc opts) (AggName ''first'');
              vs = (case pv_values opts of Some v \<Rightarrow> Some v | None \<Rightarrow> values')
          in case resolve_aggregate aggregateFunc of
               Inl e \<Rightarrow> Inl e
             | Inr fn \<Rightarrow>
                 Inr (NPivotExpr f (map_option names_of vs)
                        (map_option names_of (pv_index opts))
                        (map_option names_of (pv_columns opts))
                        fn maintainOrder sortColumns (pv_separator opts)))"

subsection \<open>unique\<close>

datatype keep = KeepFirst | KeepLast

record unique_options =
  uq_maintainOrder :: "bool option"
  uq_subset :: "selection option"
  uq_keep :: "keep option"

datatype unique_arg = UniqueFlag bool | UniqueOptions unique_options

text \<open>
  \<^verbatim>\<open>unique(opts = false, subset?, keep = "first")\<close>: the arguments
  \<open>(maintainOrder, subset, keep)\<close> of the native call. With a boolean the three arguments
  are passed on as they are. With an options object, \<^verbatim>\<open>if (opts.subset)\<close> (an array, or a
  string that is not empty) the subset becomes \<^verbatim>\<open>[opts.subset].flat(3)\<close>, and the call
  takes \<^verbatim>\<open>{maintainOrder: false, keep, ...opts}\<close>.
\<close>

definition unique_args ::
  "unique_arg option \<Rightarrow> selection option \<Rightarrow> keep option \<Rightarrow> bool \<times> selection option \<times> keep" where
  "unique_args opts subset' keep' =
     (let k = or_default keep' KeepFirst in
      case or_default opts (UniqueFlag False) of
        UniqueFlag b \<Rightarrow> (b, subset', k)
      | UniqueOptions uo \<Rightarrow>
          (or_default (uq_maintainOrder uo) False,
           (case uq_subset uo of
              None \<Rightarrow> None
            | Some x \<Rightarrow> if x = Column [] then Some x else Some (Columns (names_of x))),
           or_default (uq_keep uo) k))"

text \<open>The rows of a frame: row \<open>i\<close> has cell \<open>i\<close> of every column.\<close>

definition rows :: "frame \<Rightarrow> cell list list" where
  "rows f = map (\<lambda>i. map (\<lambda>s. vals s ! i) f) [0..<height f]"

text \<open>The cells of a row in the columns of a subset.\<close>

definition key_cells :: "string list \<Rightarrow> string list \<Rightarrow> cell list \<Rightarrow> cell list" where
  "key_cells cols ss r = map snd (filter (\<lambda>(c, v). c \<in> set ss) (zip cols r))"

text \<open>The first row of every group of rows with equal keys, in the order of the rows.\<close>

fun keep_first :: "('r \<Rightarrow> 'k) \<Rightarrow> 'k list \<Rightarrow> 'r list \<Rightarrow> 'r list" where
  "keep_first key seen [] = []"
| "keep_first key seen (r # rs) =
     (if key r \<in> set seen then keep_first key seen rs
      else r # keep_first key (key r # seen) rs)"

text \<open>
  One row for every group, the groups in the order of their first rows: the first row of
  the group, or its last.
\<close>

definition survivors :: "('r \<Rightarrow> 'k) \<Rightarrow> keep \<Rightarrow> 'r list \<Rightarrow> 'r list" where
  "survivors key k rs =
     (case k of
        KeepFirst \<Rightarrow> keep_first key [] rs
      | KeepLast \<Rightarrow> map (\<lambda>r. last (filter (\<lambda>r'. key r' = key r) rs)) (keep_first key [] rs))"

text \<open>
  Modelled from the spec: the native \<^verbatim>\<open>_df.unique(maintainOrder, subset, keep)\<close> is not
  among the sources. It groups the rows by equality over the subset (all columns when there
  is none) and retains one row for every group according to \<open>keep\<close>. With \<open>maintainOrder\<close> the
  retained rows stand in the order of the first occurrences of their groups; without it
  their order is unspecified. So the method is a relation: \<open>native_unique f args d\<close> holds
  when \<open>d\<close> is a frame that the call may return. It returns none when a name of the subset
  is not a column, or when the subset is a bare string and not an array of names.
\<close>

definition native_unique :: "frame \<Rightarrow> bool \<times> selection option \<times> keep \<Rightarrow> frame \<Rightarrow> bool" where
  "native_unique f args d =
     (case args of (maintainOrder, subset', k) \<Rightarrow>
        (case subset' of
           Some (Column c) \<Rightarrow> False
         | _ \<Rightarrow>
           (let ss = (case subset' of Some (Columns cs) \<Rightarrow> cs | _ \<Rightarrow> columns f);
                kept = survivors (key_cells (columns f) ss) k (rows f)
            in list_all (\<lambda>c. c \<in> set (columns f)) ss
               \<and> columns d = columns f \<and> map dtype d = map dtype f
               \<and> list_all (\<lambda>s. length (vals s) = height d) d
               \<and> (if maintainOrder then rows d = kept else mset (rows d) = mset kept))))"

definition unique ::
  "frame \<Rightarrow> unique_arg option \<Rightarrow> selection option \<Rightarrow> keep option \<Rightarrow> frame \<Rightarrow> bool" where
  "unique f opts subset' keep' d = native_unique f (unique_args opts subset' keep') d"

text \<open>The frame with the columns of \<open>f\<close> and the given rows.\<close>

definition with_rows :: "frame \<Rightarrow> cell list list \<Rightarrow> frame" where
  "with_rows f rs = map (\<lambda>(j, s). s\<lparr>vals := map (\<lambda>r. r ! j) rs\<rparr>) (zip [0..<length f] f)"

subsection \<open>The native handles, and the methods that change or copy them\<close>

text \<open>
  A DataFrame object holds a native handle \<^verbatim>\<open>_df\<close>. Native frames live in a store, a
  handle is an index of it, and \<^verbatim>\<open>_DataFrame(x)\<close> wraps the handle \<open>x\<close> without copying.
  A native method that returns a frame allocates a new handle; \<open>wrap\<close> is
  \<^verbatim>\<open>_DataFrame(_df[method](...args))\<close> on the result of the native method.
\<close>

type_synonym handle = nat

type_synonym heap = "frame list"

definition wrap :: "heap \<Rightarrow> error + frame \<Rightarrow> (error + handle) \<times> heap" where
  "wrap hp r = (case r of Inl e \<Rightarrow> (Inl e, hp) | Inr f \<Rightarrow> (Inr (length hp), hp @ [f]))"

text \<open>Modelled from the spec: the native \<^verbatim>\<open>clone\<close> gives a new handle on a copy of the
  columns.\<close>

definition clone :: "heap \<Rightarrow> handle \<Rightarrow> (error + handle) \<times> heap" where
  "clone hp h = wrap hp (Inr (hp ! h))"

text \<open>
  Modelled from the spec: the native \<^verbatim>\<open>rename(column, new_col)\<close>, \<^verbatim>\<open>drop(name)\<close> and
  \<^verbatim>\<open>dropInPlace(name)\<close> are not among the sources. A column that does not exist is
  \<open>ColumnNotFound\<close>, a name that would occur twice is \<open>DuplicateColumn\<close>.
\<close>

definition native_rename :: "frame \<Rightarrow> string \<Rightarrow> string \<Rightarrow> error + frame" where
  "native_rename f column new_col =
     (if column \<notin> set (columns f) then Inl (ColumnNotFound column)
      else if new_col \<noteq> column \<and> new_col \<in> set (columns f) then Inl (DuplicateColumn new_col)
      else Inr (map (\<lambda>s. if name s = column then s\<lparr>name := new_col\<rparr> else s) f))"

definition native_drop :: "frame \<Rightarrow> string \<Rightarrow> error + frame" where
  "native_drop f n =
     (if n \<notin> set (columns f) then Inl (ColumnNotFound n)
      else Inr (filter (\<lambda>s. name s \<noteq> n) f))"

text \<open>
  \<^verbatim>\<open>rename(mapping)\<close>: \<^verbatim>\<open>const df = this.clone()\<close>, then for every entry of the mapping
  \<^verbatim>\<open>df.inner().rename(column, new_col)\<close> on the clone, then \<^verbatim>\<open>return df\<close>. The mapping is
  the list \<^verbatim>\<open>Object.entries(mapping)\<close>. An error of a native call ends the method.
\<close>

fun rename_entries :: "heap \<Rightarrow> handle \<Rightarrow> (string \<times> string) list \<Rightarrow> error option \<times> heap" where
  "rename_entries hp d [] = (None, hp)"
| "rename_entries hp d ((column, new_col) # rest) =
     (case native_rename (hp ! d) column new_col of
        Inl e \<Rightarrow> (Some e, hp)
      | Inr f \<Rightarrow> rename_entries (hp[d := f]) d rest)"

definition rename :: "heap \<Rightarrow> handle \<Rightarrow> (string \<times> string) list \<Rightarrow> (error + handle) \<times> heap" where
  "rename hp h mapping =
     (case clone hp h of
        (Inl e, hp1) \<Rightarrow> (Inl e, hp1)
      | (Inr d, hp1) \<Rightarrow>
          (case rename_entries hp1 d mapping of
             (Some e, hp2) \<Rightarrow> (Inl e, hp2)
           | (None, hp2) \<Rightarrow> (Inr d, hp2)))"

text \<open>
  \<^verbatim>\<open>drop(...names)\<close>: one argument that is not an array is \<^verbatim>\<open>wrap("drop", names[0])\<close>;
  otherwise \<^verbatim>\<open>dropInPlace(name)\<close> on a clone for every name of \<^verbatim>\<open>names.flat(2)\<close>.
\<close>

fun drop_names :: "heap \<Rightarrow> handle \<Rightarrow> string list \<Rightarrow> error option \<times> heap" where
  "drop_names hp d [] = (None, hp)"
| "drop_names hp d (n # rest) =
     (case native_drop (hp ! d) n of
        Inl e \<Rightarrow> (Some e, hp)
      | Inr f \<Rightarrow> drop_names (hp[d := f]) d rest)"

definition drop_df :: "heap \<Rightarrow> handle \<Rightarrow> selection list \<Rightarrow> (error + handle) \<times> heap" where
  "drop_df hp h names =
     (case names of
        [Column n] \<Rightarrow> wrap hp (native_drop (hp ! h) n)
      | _ \<Rightarrow>
          (case clone hp h of
             (Inl e, hp1) \<Rightarrow> (Inl e, hp1)
           | (Inr d, hp1) \<Rightarrow>
               (case drop_names hp1 d (concat (map names_of names)) of
                  (Some e, hp2) \<Rightarrow> (Inl e, hp2)
                | (None, hp2) \<Rightarrow> (Inr d, hp2))))"

text \<open>
  Modelled from the spec: the native \<^verbatim>\<open>insertAtIdx\<close> and \<^verbatim>\<open>replaceAtIdx\<close> are not among
  the sources. They change the columns of the handle itself. Both refuse a column whose
  length is not the height (\<open>LengthMismatch\<close>); inserting refuses a name that a column
  has (\<open>DuplicateColumn\<close>), replacing checks the index and the length only.
\<close>

definition native_insertAtIdx :: "frame \<Rightarrow> nat \<Rightarrow> series \<Rightarrow> error + frame" where
  "native_insertAtIdx f idx s =
     (if name s \<in> set (columns f) then Inl (DuplicateColumn (name s))
      else if length (vals s) \<noteq> height f then Inl LengthMismatch
      else if idx > length f then Inl IndexOutOfBounds
      else Inr (take idx f @ [s] @ List.drop idx f))"

definition native_replaceAtIdx :: "frame \<Rightarrow> nat \<Rightarrow> series \<Rightarrow> error + frame" where
  "native_replaceAtIdx f idx s =
     (if idx \<ge> length f then Inl IndexOutOfBounds
      else if length (vals s) \<noteq> height f then Inl LengthMismatch
      else Inr (f[idx := s]))"

text \<open>
  \<^verbatim>\<open>insertAtIdx(idx, series) { _df.insertAtIdx(idx, series.inner()); }\<close> and
  \<^verbatim>\<open>replaceAtIdx(index, newColumn) { _df.replaceAtIdx(index, newColumn.inner()); return this; }\<close>
\<close>

definition insertAtIdx :: "heap \<Rightarrow> handle \<Rightarrow> nat \<Rightarrow> series \<Rightarrow> error option \<times> heap" where
  "insertAtIdx hp h idx s =
     (case native_insertAtIdx (hp ! h) idx s of
        Inl e \<Rightarrow> (Some e, hp)
      | Inr f \<Rightarrow> (None, hp[h := f]))"

definition replaceAtIdx :: "heap \<Rightarrow> handle \<Rightarrow> nat \<Rightarrow> series \<Rightarrow> (error + handle) \<times> heap" where
  "replaceAtIdx hp h idx s =
     (case native_replaceAtIdx (hp ! h) idx s of
        Inl e \<Rightarrow> (Inl e, hp)
      | Inr f \<Rightarrow> (Inr h, hp[h := f]))"

text \<open>
  The methods that transform rows, on handles. \<open>native\<close> stands for the native engine: it
  maps a call to the frame that the native method returns, or to its error.
  \<^verbatim>\<open>filter(predicate) { return this.lazy().filter(predicate).collectSync(); }\<close>;
  \<^verbatim>\<open>groupBy(...by) { return _GroupBy(_df, columnOrColumnsStrict(by)); }\<close> builds a GroupBy
  object on the same native handle.
\<close>

definition run :: "(ncall \<Rightarrow> error + frame) \<Rightarrow> error + ncall \<Rightarrow> error + frame" where
  "run native r = (case r of Inl e \<Rightarrow> Inl e | Inr c \<Rightarrow> native c)"

definition sort_handle ::
  "(ncall \<Rightarrow> error + frame) \<Rightarrow> heap \<Rightarrow> handle \<Rightarrow> sort_arg \<Rightarrow> bool option \<Rightarrow> bool option
   \<Rightarrow> (error + handle) \<times> heap" where
  "sort_handle native hp h a descending maintain_order =
     wrap hp (native (sort_df (hp ! h) a descending maintain_order))"

definition join_handle ::
  "(ncall \<Rightarrow> error + frame) \<Rightarrow> heap \<Rightarrow> handle \<Rightarrow> handle \<Rightarrow> join_options
   \<Rightarrow> (error + handle) \<times> heap" where
  "join_handle native hp h other options =
     wrap hp (run native (join_df (hp ! h) (hp ! other) options))"

definition pivot_handle ::
  "(ncall \<Rightarrow> error + frame) \<Rightarrow> heap \<Rightarrow> handle \<Rightarrow> selection option \<Rightarrow> pivot_options option
   \<Rightarrow> (error + handle) \<times> heap" where
  "pivot_handle native hp h values' options =
     wrap hp (run native (pivot (hp ! h) values' options))"

definition filter_handle ::
  "(ncall \<Rightarrow> error + frame) \<Rightarrow> heap \<Rightarrow> handle \<Rightarrow> expr \<Rightarrow> (error + handle) \<times> heap" where
  "filter_handle native hp h predicate = wrap hp (native (NLazyFilter (hp ! h) predicate))"

record groupby =
  gb_df :: handle
  gb_by :: "string list"

definition groupBy :: "heap \<Rightarrow> handle \<Rightarrow> selection list \<Rightarrow> groupby \<times> heap" where
  "groupBy hp h by = (\<lparr>gb_df = h, gb_by = concat (map names_of by)\<rparr>, hp)"

text \<open>
  A result on handles returns a new DataFrame: the store of the handles that existed is
  as before, and a handle that is returned is a new one.
\<close>

definition returns_new :: "heap \<Rightarrow> (error + handle) \<times> heap \<Rightarrow> bool" where
  "returns_new hp res \<longleftrightarrow>
     take (length hp) (snd res) = hp
     \<and> (case fst res of Inl e \<Rightarrow> True | Inr d \<Rightarrow> length hp \<le> d \<and> d < length (snd res))"

subsection \<open>schema\<close>

text \<open>
  A plain JavaScript object with string keys: its own properties in the order in which
  the language enumerates them (\<^verbatim>\<open>Object.keys\<close>), which is: the keys that are array
  indices first, in ascending numeric order, then the other keys in the order of their
  creation. An array index is the canonical decimal numeral of an integer below
  \<open>2^32 - 1\<close>.
\<close>

type_synonym 'v js_object = "(string \<times> 'v) list"

definition is_digit :: "char \<Rightarrow> bool" where
  "is_digit c \<longleftrightarrow> c \<in> set ''0123456789''"

definition digits_value :: "string \<Rightarrow> nat" where
  "digits_value s = foldl (\<lambda>n c. 10 * n + (of_char c - 48)) 0 s"

definition is_array_index :: "string \<Rightarrow> bool" where
  "is_array_index s \<longleftrightarrow>
     s \<noteq> [] \<and> list_all is_digit s \<and> (s = ''0'' \<or> hd s \<noteq> CHR ''0'')
     \<and> digits_value s < 4294967295"

fun insert_index :: "string \<Rightarrow> 'v \<Rightarrow> 'v js_object \<Rightarrow> 'v js_object" where
  "insert_index k v [] = [(k, v)]"
| "insert_index k v ((k', v') # rest) =
     (if is_array_index k' \<and> digits_value k' < digits_value k
      then (k', v') # insert_index k v rest
      else (k, v) # (k', v') # rest)"

fun replace_value :: "string \<Rightarrow> 'v \<Rightarrow> 'v js_object \<Rightarrow> 'v js_object" where
  "replace_value k v [] = []"
| "replace_value k v ((k', v') # rest) =
     (if k' = k then (k, v) # rest else (k', v') # replace_value k v rest)"

text \<open>
  \<^verbatim>\<open>acc[key] = v\<close> on an object whose prototype is \<^verbatim>\<open>Object.prototype\<close> and whose
  properties were all made by such assignments: an own property keeps its place and takes
  the value; a new key is created. The key \<^verbatim>\<open>__proto__\<close> is the accessor of
  \<^verbatim>\<open>Object.prototype\<close>: the assignment calls its setter and creates no property.
\<close>

definition obj_set :: "'v js_object \<Rightarrow> string \<Rightarrow> 'v \<Rightarrow> 'v js_object" where
  "obj_set obj k v =
     (if k = ''__proto__'' then obj
      else if k \<in> set (map fst obj) then replace_value k v obj
      else if is_array_index k then insert_index k v obj
      else obj @ [(k, v)])"

definition object_keys :: "'v js_object \<Rightarrow> string list" where
  "object_keys obj = map fst obj"

text \<open>
  \<^verbatim>\<open>getColumns() { return _df.getColumns().map(_Series) }\<close> and the getter
  \<^verbatim>\<open>schema\<close>: \<^verbatim>\<open>this.getColumns().reduce((acc, curr) => { acc[curr.name] = curr.dtype; return acc; }, {})\<close>.
  \<open>schema_of\<close> is the \<^verbatim>\<open>reduce\<close> from an accumulator.
\<close>

definition getColumns :: "heap \<Rightarrow> handle \<Rightarrow> series list" where
  "getColumns hp h = hp ! h"

definition schema_of :: "dtype js_object \<Rightarrow> series list \<Rightarrow> dtype js_object" where
  "schema_of acc cols = foldl (\<lambda>acc curr. obj_set acc (name curr) (dtype curr)) acc cols"

text \<open>
  The getter calls \<^verbatim>\<open>this.getColumns()\<close> on the proxy: on a frame with a column named
  \<open>getColumns\<close> the trap \<^verbatim>\<open>get\<close> answers with that column, and calling a Series throws a
  \<^verbatim>\<open>TypeError\<close>.
\<close>

definition schema :: "heap \<Rightarrow> handle \<Rightarrow> error + dtype js_object" where
  "schema hp h =
     (if ''getColumns'' \<in> set (columns (hp ! h)) then Inl TypeError
      else Inr (schema_of [] (getColumns hp h)))"

subsection \<open>The proxy\<close>




text \<open>Modelled from the spec: the native \<^verbatim>\<open>_df.column(name)\<close> is not among the sources;
  \<open>getColumn\<close> fails with \<open>ColumnNotFound\<close> when there is no such column.\<close>

definition getColumn :: "frame \<Rightarrow> string \<Rightarrow> error + series" where
  "getColumn f n =
     (case find (\<lambda>s. name s = n) f of None \<Rightarrow> Inl (ColumnNotFound n) | Some s \<Rightarrow> Inr s)"

text \<open>
  Reading \<^verbatim>\<open>df.schema\<close>: the trap \<^verbatim>\<open>get\<close> answers with the column named \<open>schema\<close> when
  there is one (\<open>Inl\<close>), and with the getter otherwise (\<open>Inr\<close>).
\<close>

definition read_schema :: "heap \<Rightarrow> handle \<Rightarrow> (error + series) + (error + dtype js_object)" where
  "read_schema hp h =
     (if ''schema'' \<in> set (columns (hp ! h)) then Inl (getColumn (hp ! h) ''schema'')
      else Inr (schema hp h))"



subsection \<open>A concrete DataFrame\<close>

text \<open>The DataFrame of the scenario of the specification.\<close>

definition scenario :: frame where
  "scenario =
     [\<lparr>name = ''foo'', dtype = Int64, vals = [Some (IntV 1), Some (IntV 2), Some (IntV 3)]\<rparr>,
      \<lparr>name = ''bar'', dtype = Int64, vals = [Some (IntV 6), Some (IntV 7), Some (IntV 8)]\<rparr>,
      \<lparr>name = ''ham'', dtype = Utf8,
        vals = [Some (StrV ''a''), Some (StrV ''b''), Some (StrV ''c'')]\<rparr>]"

text \<open>A second column named \<open>bar\<close>, to put in the place of a column.\<close>

definition bar_again :: series where
  "bar_again = \<lparr>name = ''bar'', dtype = Utf8,
     vals = [Some (StrV ''u''), Some (StrV ''v''), Some (StrV ''w'')]\<rparr>"

text \<open>
  A frame with repeated rows, its distinct rows in the order of their first occurrences,
  and the same rows in another order.
\<close>

definition duplicated :: frame where
  "duplicated =
     [\<lparr>name = ''a'', dtype = Int64, vals = [Some (IntV 1), Some (IntV 1), Some (IntV 2), Some (IntV 1)]\<rparr>,
      \<lparr>name = ''b'', dtype = Utf8, vals = [Some (StrV ''x''), Some (StrV ''x''), None, Some (StrV ''y'')]\<rparr>]"

definition deduplicated :: frame where
  "deduplicated =
     [\<lparr>name = ''a'', dtype = Int64, vals = [Some (IntV 1), Some (IntV 2), Some (IntV 1)]\<rparr>,
      \<lparr>name = ''b'', dtype = Utf8, vals = [Some (StrV ''x''), None, Some (StrV ''y'')]\<rparr>]"

definition deduplicated_other_order :: frame where
  "deduplicated_other_order =
     [\<lparr>name = ''a'', dtype = Int64, vals = [Some (IntV 2), Some (IntV 1), Some (IntV 1)]\<rparr>,
      \<lparr>name = ''b'', dtype = Utf8, vals = [None, Some (StrV ''y''), Some (StrV ''x'')]\<rparr>]"

section \<open>Properties\<close>

text \<open>
  C9: for every DataFrame and every length, \<open>limit\<close> returns the same DataFrame as \<open>head\<close>,
  and with no length both return the first five rows: the columns keep their names and
  types, and each keeps its first five cells.
\<close>

theorem limit_is_head:
  "limit f len = head f len
   \<and> head f None = map (\<lambda>s. s\<lparr>vals := take 5 (vals s)\<rparr>) f
   \<and> limit f None = map (\<lambda>s. s\<lparr>vals := take 5 (vals s)\<rparr>) f"
  by (simp add: limit_def head_def native_head_def)


subsection \<open>join: the errors of the keys\<close>

text \<open>
  C1 (as amended): for every pair of DataFrames and every join other than a cross join,
  when \<open>on\<close> is not supplied and \<open>leftOn\<close>, \<open>rightOn\<close> are not both supplied, the join fails
  with \<open>MissingJoinKey\<close> (by the check of the method itself when exactly one of the two is
  supplied); when \<open>on\<close> is not supplied and \<open>leftOn\<close>, \<open>rightOn\<close> are supplied with different
  arities, it fails with \<open>KeyCountMismatch\<close>. In both cases there is no result DataFrame.
  A cross join ignores the key options and is carried out with empty key lists, and a
  supplied \<open>on\<close> takes the place of \<open>leftOn\<close> and \<open>rightOn\<close>.
\<close>

theorem join_key_errors:
  "(or_default (how options) ''inner'' \<noteq> ''cross'' \<and> on options = None \<longrightarrow>
      (leftOn options = None \<or> rightOn options = None \<longrightarrow>
         join_outcome f other options = Inl MissingJoinKey)
      \<and> ((leftOn options = None) \<noteq> (rightOn options = None) \<longrightarrow>
         join_df f other options = Inl MissingJoinKey)
      \<and> (\<forall>ls rs. leftOn options = Some ls \<and> rightOn options = Some rs \<and> length ls \<noteq> length rs \<longrightarrow>
         join_outcome f other options = Inl KeyCountMismatch))
   \<and> (or_default (how options) ''inner'' = ''cross'' \<longrightarrow>
      join_outcome f other options
        = Inr (NJoin f other (Some []) (Some []) ''cross'' (suffix options)))
   \<and> (\<forall>k. or_default (how options) ''inner'' \<noteq> ''cross'' \<and> on options = Some k \<longrightarrow>
      join_outcome f other options
        = Inr (NJoin f other (Some k) (Some k) (or_default (how options) ''inner'')
            (suffix options)))"
  by (auto simp: join_outcome_def join_df_def native_join_check_def Let_def
           split: option.splits)

theorem join_key_errors_witness:
  "join_outcome scenario scenario
     \<lparr>how = None, on = None, leftOn = Some [''foo''], rightOn = None, suffix = None\<rparr>
     = Inl MissingJoinKey
   \<and> join_outcome scenario scenario
     \<lparr>how = Some ''left'', on = None, leftOn = Some [''foo'', ''bar''], rightOn = Some [''foo''],
      suffix = None\<rparr>
     = Inl KeyCountMismatch
   \<and> join_outcome scenario scenario
     \<lparr>how = Some ''left'', on = Some [''ham''], leftOn = None, rightOn = None, suffix = None\<rparr>
     = Inr (NJoin scenario scenario (Some [''ham'']) (Some [''ham'']) ''left'' None)"
  using join_key_errors[of "\<lparr>how = None, on = None, leftOn = Some [''foo''], rightOn = None, suffix = None\<rparr>"
      scenario scenario]
    join_key_errors[of "\<lparr>how = Some ''left'', on = None, leftOn = Some [''foo'', ''bar''],
      rightOn = Some [''foo''], suffix = None\<rparr>" scenario scenario]
    join_key_errors[of "\<lparr>how = Some ''left'', on = Some [''ham''], leftOn = None,
      rightOn = None, suffix = None\<rparr>" scenario scenario]
  by (simp add: or_default_def)

text \<open>
  A cross join with no key at all is carried out, with two empty key lists. And when \<open>on\<close>
  is supplied, \<open>leftOn\<close> and \<open>rightOn\<close> of different arities are ignored.
\<close>

theorem join_cross_counterexample:
  "join_outcome scenario scenario
     \<lparr>how = Some ''cross'', on = None, leftOn = None, rightOn = None, suffix = None\<rparr>
     = Inr (NJoin scenario scenario (Some []) (Some []) ''cross'' None)
   \<and> join_outcome scenario scenario
     \<lparr>how = None, on = Some [''ham''], leftOn = Some [''foo'', ''bar''], rightOn = Some [''foo''],
      suffix = None\<rparr>
     = Inr (NJoin scenario scenario (Some [''ham'']) (Some [''ham'']) ''inner'' None)"
  by (simp add: join_outcome_def join_df_def native_join_check_def or_default_def Let_def)

subsection \<open>sort: the options object\<close>

text \<open>
  C3 (the code at the failing input): called with the options object
  \<open>{by, descending, maintain_order: true}\<close>, \<open>sort\<close> calls the native sort with
  \<open>maintain_order\<close> false, so the order of rows with equal keys is not kept; the positional
  call with the same arguments passes \<open>maintain_order\<close> true.
\<close>

theorem sort_options_drop_maintain_order:
  "sort_df f (SortOptions (ByColumn c) descending (Some True)) d m
     = NSort f c (or_default descending False) True False
   \<and> sort_df f (SortBy (ByColumn c)) descending (Some True)
     = NSort f c (or_default descending False) True True"
  by (simp add: sort_df_def sort_columns_def or_default_def)

subsection \<open>pivot: the name of the aggregation\<close>

lemma resolve_aggregate_names:
  "resolve_aggregate (AggName ''first'') = Inr (FnExpr (Element AggFirst))"
  "resolve_aggregate (AggName ''sum'') = Inr (FnExpr (Element AggSum))"
  "resolve_aggregate (AggName ''max'') = Inr (FnExpr (Element AggMax))"
  "resolve_aggregate (AggName ''min'') = Inr (FnExpr (Element AggMin))"
  "resolve_aggregate (AggName ''mean'') = Inr (FnExpr (Element AggMean))"
  "resolve_aggregate (AggName ''median'') = Inr (FnExpr (Element AggMedian))"
  "resolve_aggregate (AggName ''last'') = Inr (FnExpr (Element AggLast))"
  "resolve_aggregate (AggName ''count'') = Inr (FnExpr (Element AggCount))"
  by (simp_all add: resolve_aggregate_def aggregate_table_def)

lemma resolve_aggregate_unknown:
  "s \<notin> fst ` set aggregate_table \<Longrightarrow> s \<notin> set object_prototype_keys
   \<Longrightarrow> resolve_aggregate (AggName s) = Inl (UnknownAggregate s)"
  using map_of_eq_None_iff[of aggregate_table s] by (simp add: resolve_aggregate_def)

text \<open>
  C5 (the code at the failing input): with \<open>aggregateFunc: "toString"\<close>, a string outside
  the eight names and not an expression, \<open>pivot\<close> throws no unknown-aggregate error: the
  lookup in the object literal finds the member inherited from \<open>Object.prototype\<close>, and
  \<open>pivot\<close> calls the native \<open>pivotExpr\<close> with it.
\<close>

theorem pivot_inherited_name:
  "pivot f (Some (Column ''baz''))
     (Some \<lparr>pv_values = None, pv_index = Some (Column ''foo''), pv_columns = Some (Column ''bar''),
            pv_maintainOrder = None, pv_sortColumns = None,
            pv_aggregateFunc = Some (AggName ''toString''), pv_separator = None\<rparr>)
   = Inr (NPivotExpr f (Some [''baz'']) (Some [''foo'']) (Some [''bar''])
            (FnObjectPrototype ''toString'') True False None)"
  by (simp add: pivot_def resolve_aggregate_def aggregate_table_def object_prototype_keys_def
        or_default_def names_of_def)

subsection \<open>sample: neither \<open>n\<close> nor \<open>frac\<close>\<close>

lemma sample_from_neither:
  "prop_n opts = JUndefined \<Longrightarrow> prop_frac opts = JUndefined \<Longrightarrow> \<not> is_number opts
   \<Longrightarrow> sample_from f opts fr wr seed = sample_frac f fr wr seed"
  by (cases opts) (simp_all add: prop_n_def prop_frac_def is_number_def)

lemma sample_frac_not_number:
  "\<not> is_number fr \<Longrightarrow> sample_frac f fr wr seed = Inl InvalidArgument"
  by (cases fr) (simp_all add: sample_frac_def is_number_def)

text \<open>
  C6 (as amended): every call of \<open>sample\<close> with at least one argument in which neither a
  row count \<open>n\<close> nor a fraction \<open>frac\<close> is given (the first argument is not a number and has
  no property \<open>n\<close> or \<open>frac\<close>, the second is not a number) fails with \<open>InvalidArgument\<close> and
  returns no DataFrame; the call with no argument at all samples one row.
\<close>

theorem sample_without_n_or_frac:
  "(args \<noteq> [] \<and> prop_n (argument args 0) = JUndefined \<and> prop_frac (argument args 0) = JUndefined
      \<and> \<not> is_number (argument args 0) \<and> \<not> is_number (argument args 1)
      \<longrightarrow> sample f args = Inl InvalidArgument)
   \<and> sample f [] = Inr (NSampleN f 1 (JBool False) False JUndefined)"
  by (simp add: sample_def sample_from_neither sample_frac_not_number)

theorem sample_without_n_or_frac_witness:
  "sample scenario [JObj JUndefined JUndefined (JBool True)] = Inl InvalidArgument
   \<and> sample scenario [JUndefined, JUndefined, JBool True] = Inl InvalidArgument"
  using sample_without_n_or_frac[of "[JObj JUndefined JUndefined (JBool True)]" scenario]
    sample_without_n_or_frac[of "[JUndefined, JUndefined, JBool True]" scenario]
  by (simp add: argument_def prop_n_def prop_frac_def is_number_def)

text \<open>The call with no argument at all does not fail.\<close>

theorem sample_no_arguments_counterexample:
  "sample scenario [] = Inr (NSampleN scenario 1 (JBool False) False JUndefined)
   \<and> sample scenario [] \<noteq> Inl InvalidArgument"
  by (simp add: sample_def)

subsection \<open>transpose: the column names\<close>

lemma takeNItems_loop_spec:
  "length result = i \<Longrightarrow> (\<forall>k<i. it k = Some (result ! k)) \<Longrightarrow> i \<le> n \<Longrightarrow>
   length (takeNItems_loop it n i result) \<le> n
   \<and> (\<forall>k<length (takeNItems_loop it n i result). it k = Some (takeNItems_loop it n i result ! k))
   \<and> (length (takeNItems_loop it n i result) < n \<longrightarrow> it (length (takeNItems_loop it n i result)) = None)"
proof (induction it n i result rule: takeNItems_loop.induct)
  case (1 it n i result)
  show ?case
  proof (cases "it i")
    case None
    with "1.prems" show ?thesis by simp
  next
    case (Some item)
    show ?thesis
    proof (cases "i \<ge> n")
      case True
      with Some "1.prems" show ?thesis by simp
    next
      case False
      have inv: "\<forall>k<i + 1. it k = Some ((result @ [item]) ! k)"
        using "1.prems" Some by (auto simp: nth_append less_Suc_eq)
      have "length (result @ [item]) = i + 1" using "1.prems" by simp
      from "1.IH"[OF Some False this inv] False Some show ?thesis by simp
    qed
  qed
qed

lemma takeNItems_spec:
  "length (takeNItems it n) \<le> n
   \<and> (\<forall>k<length (takeNItems it n). it k = Some (takeNItems it n ! k))
   \<and> (length (takeNItems it n) < n \<longrightarrow> it (length (takeNItems it n)) = None)"
  unfolding takeNItems_def by (rule takeNItems_loop_spec) simp_all

lemma this_height_rows: "''height'' \<notin> set (columns f) \<Longrightarrow> this_height f = Inr (height f)"
proof -
  assume "''height'' \<notin> set (columns f)"
  then have "find (\<lambda>s. name s = ''height'') f = None"
    by (force simp: find_None_iff columns_def)
  then show ?thesis by (simp add: this_height_def)
qed

text \<open>
  C7 (as amended): when \<open>transpose\<close> is given a \<open>columnNames\<close> sequence on a DataFrame with
  no column named \<open>height\<close>, the sequence is truncated to the height of the receiver and
  never padded. Of an array the native \<open>transpose\<close> receives the first \<open>height\<close> names, or
  all of them when there are fewer; of an iterable it receives the items in order, up to
  \<open>height\<close> of them, and fewer only when the iterable ends.
\<close>

theorem transpose_names_truncated:
  assumes "''height'' \<notin> set (columns f)"
  shows "(columnNames opts = Some (NamesArray xs) \<longrightarrow>
      names_passed (transpose_df cbs f (Some opts)) = Some (take (height f) xs)
      \<and> length (take (height f) xs) = min (length xs) (height f))
   \<and> (columnNames opts = Some (NamesIterable it) \<longrightarrow>
      (\<exists>ns. names_passed (transpose_df cbs f (Some opts)) = Some ns
         \<and> length ns \<le> height f
         \<and> (\<forall>k<length ns. it k = Some (ns ! k))
         \<and> (length ns < height f \<longrightarrow> it (length ns) = None)))"
  using takeNItems_spec[of it "height f"] this_height_rows[OF assms]
  by (simp add: transpose_df_def names_passed_def Let_def)

theorem transpose_names_truncated_witness:
  "names_passed (transpose_df (\<lambda>s cn. None) scenario
      (Some \<lparr>includeHeader = None, headerName = None,
             columnNames = Some (NamesArray [''a'', ''b'', ''c'', ''d''])\<rparr>))
     = Some [''a'', ''b'', ''c'']
   \<and> (\<exists>ns. names_passed (transpose_df (\<lambda>s cn. None) scenario
         (Some \<lparr>includeHeader = None, headerName = None,
                columnNames = Some (NamesIterable (\<lambda>i. if i < 2 then Some ''x'' else None))\<rparr>))
         = Some ns \<and> length ns = 2)"
proof -
  have h: "height scenario = 3" by (simp add: scenario_def height_def)
  have nh: "''height'' \<notin> set (columns scenario)" by (simp add: scenario_def columns_def)
  let ?cut = "\<lambda>(s::series) (cn::column_names). None :: string list option"
  let ?it = "\<lambda>i::nat. if i < 2 then Some ''x'' else None"
  let ?o1 = "\<lparr>includeHeader = None, headerName = None,
             columnNames = Some (NamesArray [''a'', ''b'', ''c'', ''d''])\<rparr>"
  let ?o2 = "\<lparr>includeHeader = None, headerName = None, columnNames = Some (NamesIterable ?it)\<rparr>"
  from transpose_names_truncated[OF nh, of ?o1 "[''a'', ''b'', ''c'', ''d'']" ?cut ?it]
  have a: "names_passed (transpose_df ?cut scenario (Some ?o1)) = Some [''a'', ''b'', ''c'']"
    by (simp add: h)
  from transpose_names_truncated[OF nh, of ?o2 "[]" ?cut ?it]
  obtain ns where ns: "names_passed (transpose_df ?cut scenario (Some ?o2)) = Some ns"
    "length ns \<le> 3" "\<forall>k<length ns. ?it k = Some (ns ! k)" "length ns < 3 \<longrightarrow> ?it (length ns) = None"
    by (auto simp: h)
  have "length ns = 2"
  proof -
    have "\<not> 2 < length ns" using ns(3) by (auto split: if_splits)
    moreover have "\<not> length ns < 2" using ns(4) by (auto split: if_splits)
    ultimately show ?thesis by simp
  qed
  with a ns(1) show ?thesis by blast
qed

text \<open>The scenario has three rows; of the one name given, one name is passed.\<close>

theorem transpose_not_padded_counterexample:
  "height scenario = 3
   \<and> names_passed (transpose_df (\<lambda>s cn. None) scenario
        (Some \<lparr>includeHeader = None, headerName = None, columnNames = Some (NamesArray [''a''])\<rparr>))
      = Some [''a'']"
  by (simp add: transpose_df_def names_passed_def this_height_def scenario_def height_def
        or_default_def)

subsection \<open>rename and drop: a new DataFrame\<close>

lemma returns_new_wrap: "returns_new hp (wrap hp r)"
  by (cases r) (simp_all add: returns_new_def wrap_def)

lemma rename_entries_keeps:
  "n \<le> d \<Longrightarrow> take n (snd (rename_entries hp d m)) = take n hp
     \<and> length (snd (rename_entries hp d m)) = length hp"
proof (induction hp d m rule: rename_entries.induct)
  case (1 hp d)
  then show ?case by simp
next
  case (2 hp d column new_col rest)
  show ?case
  proof (cases "native_rename (hp ! d) column new_col")
    case (Inl e)
    then show ?thesis by simp
  next
    case (Inr f)
    with 2 show ?thesis by simp
  qed
qed

lemma drop_names_keeps:
  "n \<le> d \<Longrightarrow> take n (snd (drop_names hp d m)) = take n hp
     \<and> length (snd (drop_names hp d m)) = length hp"
proof (induction hp d m rule: drop_names.induct)
  case (1 hp d)
  then show ?case by simp
next
  case (2 hp d c rest)
  show ?case
  proof (cases "native_drop (hp ! d) c")
    case (Inl e)
    then show ?thesis by simp
  next
    case (Inr f)
    with 2 show ?thesis by simp
  qed
qed

lemma returns_new_rename: "returns_new hp (rename hp h m)"
  using rename_entries_keeps[of "length hp" "length hp" "hp @ [hp ! h]" m]
  by (auto simp: rename_def clone_def wrap_def returns_new_def split: prod.splits option.splits)

lemma returns_new_clone_drop:
  "returns_new hp (case clone hp h of
             (Inl e, hp1) \<Rightarrow> (Inl e, hp1)
           | (Inr d, hp1) \<Rightarrow>
               (case drop_names hp1 d ns of
                  (Some e, hp2) \<Rightarrow> (Inl e, hp2)
                | (None, hp2) \<Rightarrow> (Inr d, hp2)))"
  using drop_names_keeps[of "length hp" "length hp" "hp @ [hp ! h]" ns]
  by (auto simp: clone_def wrap_def returns_new_def split: prod.splits option.splits)

lemma returns_new_drop: "returns_new hp (drop_df hp h names)"
  unfolding drop_df_def
  by (simp add: returns_new_wrap returns_new_clone_drop split: list.split selection.split)


lemma returns_new_keeps:
  "returns_new hp res \<Longrightarrow> h < length hp \<Longrightarrow> snd res ! h = hp ! h"
proof -
  assume r: "returns_new hp res" and h: "h < length hp"
  from r have t: "take (length hp) (snd res) = hp" by (simp add: returns_new_def)
  from h have "take (length hp) (snd res) ! h = snd res ! h" by simp
  with t show ?thesis by simp
qed

text \<open>
  C2 (as amended): \<open>rename\<close> and \<open>drop\<close> are not in-place mutators: like every
  row-transforming operation (\<open>filter\<close>, \<open>sort\<close>, \<open>join\<close>, \<open>pivot\<close>) each returns a new
  DataFrame (\<open>rename\<close> and \<open>drop\<close> of several names change a clone) and leaves the receiver,
  its columns, column names and height, unchanged, whether it succeeds or fails;
  \<open>groupBy\<close> builds a GroupBy object on the receiver and leaves it unchanged.
\<close>

theorem rename_and_drop_return_new:
  assumes "h < length hp"
  shows "returns_new hp (rename hp h mapping) \<and> snd (rename hp h mapping) ! h = hp ! h
    \<and> returns_new hp (drop_df hp h names) \<and> snd (drop_df hp h names) ! h = hp ! h
    \<and> returns_new hp (sort_handle native hp h a d m)
    \<and> snd (sort_handle native hp h a d m) ! h = hp ! h
    \<and> returns_new hp (join_handle native hp h other options)
    \<and> snd (join_handle native hp h other options) ! h = hp ! h
    \<and> returns_new hp (pivot_handle native hp h vs popts)
    \<and> snd (pivot_handle native hp h vs popts) ! h = hp ! h
    \<and> returns_new hp (filter_handle native hp h predicate)
    \<and> snd (filter_handle native hp h predicate) ! h = hp ! h
    \<and> snd (groupBy hp h by) = hp \<and> gb_df (fst (groupBy hp h by)) = h"
proof -
  have 1: "returns_new hp (rename hp h mapping)" by (rule returns_new_rename)
  have 2: "returns_new hp (drop_df hp h names)" by (rule returns_new_drop)
  have 3: "returns_new hp (sort_handle native hp h a d m)"
    unfolding sort_handle_def by (rule returns_new_wrap)
  have 4: "returns_new hp (join_handle native hp h other options)"
    unfolding join_handle_def by (rule returns_new_wrap)
  have 5: "returns_new hp (pivot_handle native hp h vs popts)"
    unfolding pivot_handle_def by (rule returns_new_wrap)
  have 6: "returns_new hp (filter_handle native hp h predicate)"
    unfolding filter_handle_def by (rule returns_new_wrap)
  have 7: "snd (groupBy hp h by) = hp \<and> gb_df (fst (groupBy hp h by)) = h"
    by (simp add: groupBy_def)
  from 1 2 3 4 5 6 7 returns_new_keeps[OF _ assms] show ?thesis by blast
qed

theorem rename_and_drop_return_new_witness:
  "returns_new [scenario] (rename [scenario] 0 [(''foo'', ''apple'')])
   \<and> snd (rename [scenario] 0 [(''foo'', ''apple'')]) ! 0 = scenario
   \<and> returns_new [scenario] (drop_df [scenario] 0 [Columns [''ham'', ''bar'']])
   \<and> snd (drop_df [scenario] 0 [Columns [''ham'', ''bar'']]) ! 0 = scenario"
  using rename_and_drop_return_new[of 0 "[scenario]" "[(''foo'', ''apple'')]"
      "[Columns [''ham'', ''bar'']]" "\<lambda>c. Inl InvalidArgument" "SortBy (ByColumn ''foo'')" None None 0
      "\<lparr>how = None, on = None, leftOn = None, rightOn = None, suffix = None\<rparr>" None None
      "Opaque 0" "[]"]
  by simp

text \<open>
  After \<open>rename\<close> and after \<open>drop\<close> the receiver (handle 0) has its three columns under
  their old names; the result is the new handle 1.
\<close>

theorem rename_not_in_place_counterexample:
  "fst (rename [scenario] 0 [(''foo'', ''apple'')]) = Inr 1
   \<and> columns (snd (rename [scenario] 0 [(''foo'', ''apple'')]) ! 1) = [''apple'', ''bar'', ''ham'']
   \<and> columns (snd (rename [scenario] 0 [(''foo'', ''apple'')]) ! 0) = [''foo'', ''bar'', ''ham'']
   \<and> fst (drop_df [scenario] 0 [Column ''ham'']) = Inr 1
   \<and> columns (snd (drop_df [scenario] 0 [Column ''ham'']) ! 1) = [''foo'', ''bar'']
   \<and> columns (snd (drop_df [scenario] 0 [Column ''ham'']) ! 0) = [''foo'', ''bar'', ''ham'']"
  by (simp add: rename_def drop_df_def clone_def wrap_def native_rename_def native_drop_def
        columns_def scenario_def)


subsection \<open>schema: a view of the columns\<close>

lemma object_keys_simps:
  "object_keys [] = []"
  "object_keys ((k', v') # obj) = k' # object_keys obj"
  "object_keys (obj @ obj') = object_keys obj @ object_keys obj'"
  by (simp_all add: object_keys_def)

lemma keys_insert_index:
  "set (object_keys (insert_index k v obj)) = insert k (set (object_keys obj))"
proof (induction obj)
  case Nil
  show ?case by (simp add: object_keys_simps)
next
  case (Cons p obj)
  obtain k' v' where p: "p = (k', v')" by (cases p)
  show ?case unfolding p using Cons.IH
    by (simp add: object_keys_simps insert_commute)
qed

lemma distinct_insert_index:
  "k \<notin> set (object_keys obj) \<Longrightarrow> distinct (object_keys obj)
   \<Longrightarrow> distinct (object_keys (insert_index k v obj))"
proof (induction obj)
  case Nil
  show ?case by (simp add: object_keys_simps)
next
  case (Cons p obj)
  obtain k' v' where p: "p = (k', v')" by (cases p)
  from Cons.prems have "k \<noteq> k'" "k \<notin> set (object_keys obj)" "k' \<notin> set (object_keys obj)"
    "distinct (object_keys obj)"
    unfolding p by (simp_all add: object_keys_simps)
  with Cons.IH show ?case unfolding p
    by (simp add: object_keys_simps keys_insert_index)
qed

lemma map_of_insert_index:
  "k \<notin> set (object_keys obj)
   \<Longrightarrow> map_of (insert_index k v obj) x = (if x = k then Some v else map_of obj x)"
proof (induction obj arbitrary: x)
  case Nil
  show ?case by simp
next
  case (Cons p obj)
  obtain k' v' where p: "p = (k', v')" by (cases p)
  from Cons.prems have "k \<noteq> k'" "k \<notin> set (object_keys obj)"
    unfolding p by (simp_all add: object_keys_simps)
  with Cons.IH show ?case unfolding p by simp
qed

lemma map_of_snoc:
  "k \<notin> set (object_keys obj)
   \<Longrightarrow> map_of (obj @ [(k, v)]) x = (if x = k then Some v else map_of obj x)"
proof (induction obj arbitrary: x)
  case Nil
  show ?case by simp
next
  case (Cons p obj)
  obtain k' v' where p: "p = (k', v')" by (cases p)
  from Cons.prems have "k \<noteq> k'" "k \<notin> set (object_keys obj)"
    unfolding p by (simp_all add: object_keys_simps)
  with Cons.IH show ?case unfolding p by (simp del: map_of_append)
qed

lemma keys_replace_value: "object_keys (replace_value k v obj) = object_keys obj"
proof (induction obj)
  case Nil
  show ?case by simp
next
  case (Cons p obj)
  obtain k' v' where p: "p = (k', v')" by (cases p)
  from Cons.IH show ?case unfolding p by (simp add: object_keys_simps)
qed

lemma map_of_replace_value:
  "k \<in> set (object_keys obj)
   \<Longrightarrow> map_of (replace_value k v obj) x = (if x = k then Some v else map_of obj x)"
proof (induction obj arbitrary: x)
  case Nil
  then show ?case by (simp add: object_keys_simps)
next
  case (Cons p obj)
  obtain k' v' where p: "p = (k', v')" by (cases p)
  show ?case
  proof (cases "k' = k")
    case True
    then show ?thesis unfolding p by simp
  next
    case False
    with Cons.prems have "k \<in> set (object_keys obj)" unfolding p by (simp add: object_keys_simps)
    with Cons.IH False show ?thesis unfolding p by simp
  qed
qed

lemma obj_set_cases:
  "obj_set obj k v =
     (if k = ''__proto__'' then obj
      else if k \<in> set (object_keys obj) then replace_value k v obj
      else if is_array_index k then insert_index k v obj
      else obj @ [(k, v)])"
  by (simp add: obj_set_def object_keys_def)

lemma keys_obj_set:
  "set (object_keys (obj_set obj k v))
   = (if k = ''__proto__'' then set (object_keys obj) else insert k (set (object_keys obj)))"
  by (auto simp: obj_set_cases keys_insert_index keys_replace_value object_keys_simps)

lemma distinct_obj_set:
  "distinct (object_keys obj) \<Longrightarrow> distinct (object_keys (obj_set obj k v))"
  by (auto simp: obj_set_cases distinct_insert_index keys_replace_value object_keys_simps)

lemma map_of_obj_set:
  "k \<noteq> ''__proto__''
   \<Longrightarrow> map_of (obj_set obj k v) x = (if x = k then Some v else map_of obj x)"
  by (simp add: obj_set_cases map_of_insert_index map_of_replace_value map_of_snoc
        del: map_of_append)

lemma obj_set_appends:
  "k \<noteq> ''__proto__'' \<Longrightarrow> \<not> is_array_index k \<Longrightarrow> k \<notin> set (object_keys obj)
   \<Longrightarrow> object_keys (obj_set obj k v) = object_keys obj @ [k]"
  by (simp add: obj_set_cases object_keys_simps)

lemma schema_of_simps:
  "schema_of acc [] = acc"
  "schema_of acc (s # cols) = schema_of (obj_set acc (name s) (dtype s)) cols"
  by (simp_all add: schema_of_def)

lemma keys_schema_of:
  "set (object_keys (schema_of acc cols))
   = set (object_keys acc) \<union> (set (columns cols) - {''__proto__''})"
  by (induction cols arbitrary: acc) (auto simp: schema_of_simps keys_obj_set columns_def)

lemma distinct_schema_of:
  "distinct (object_keys acc) \<Longrightarrow> distinct (object_keys (schema_of acc cols))"
  by (induction cols arbitrary: acc) (auto simp: schema_of_simps distinct_obj_set)

lemma map_of_schema_of_other:
  "n \<notin> set (columns cols) \<Longrightarrow> map_of (schema_of acc cols) n = map_of acc n"
proof (induction cols arbitrary: acc)
  case Nil
  then show ?case by (simp add: schema_of_simps)
next
  case (Cons s cols)
  then have "map_of (schema_of (obj_set acc (name s) (dtype s)) cols) n
      = map_of (obj_set acc (name s) (dtype s)) n"
    by (simp add: columns_def)
  also have "\<dots> = map_of acc n"
  proof (cases "name s = ''__proto__''")
    case True
    then show ?thesis by (simp add: obj_set_cases)
  next
    case False
    with Cons.prems show ?thesis by (auto simp: map_of_obj_set columns_def)
  qed
  finally show ?case by (simp add: schema_of_simps)
qed

lemma map_of_schema_of:
  "distinct (columns cols) \<Longrightarrow> s \<in> set cols \<Longrightarrow> name s \<noteq> ''__proto__''
   \<Longrightarrow> map_of (schema_of acc cols) (name s) = Some (dtype s)"
proof (induction cols arbitrary: acc)
  case Nil
  then show ?case by simp
next
  case (Cons c cols)
  show ?case
  proof (cases "s = c")
    case True
    from Cons.prems(1) have "name c \<notin> set (columns cols)" by (simp add: columns_def)
    then have "map_of (schema_of (obj_set acc (name c) (dtype c)) cols) (name c)
        = map_of (obj_set acc (name c) (dtype c)) (name c)"
      by (rule map_of_schema_of_other)
    with True Cons.prems(3) show ?thesis by (simp add: schema_of_simps map_of_obj_set)
  next
    case False
    with Cons.prems have "s \<in> set cols" "distinct (columns cols)" by (auto simp: columns_def)
    with Cons.IH Cons.prems(3) show ?thesis by (simp add: schema_of_simps)
  qed
qed

lemma order_schema_of:
  "distinct (columns cols) \<Longrightarrow> set (columns cols) \<inter> set (object_keys acc) = {}
   \<Longrightarrow> list_all (\<lambda>c. \<not> is_array_index c \<and> c \<noteq> ''__proto__'') (columns cols)
   \<Longrightarrow> object_keys (schema_of acc cols) = object_keys acc @ columns cols"
proof (induction cols arbitrary: acc)
  case Nil
  then show ?case by (simp add: schema_of_simps columns_def)
next
  case (Cons c cols)
  let ?acc = "obj_set acc (name c) (dtype c)"
  from Cons.prems have c: "name c \<noteq> ''__proto__''" "\<not> is_array_index (name c)"
    "name c \<notin> set (object_keys acc)" "name c \<notin> set (columns cols)"
    by (auto simp: columns_def)
  then have k: "object_keys ?acc = object_keys acc @ [name c]"
    by (simp add: obj_set_appends)
  from Cons.prems have d: "distinct (columns cols)"
    and l: "list_all (\<lambda>c. \<not> is_array_index c \<and> c \<noteq> ''__proto__'') (columns cols)"
    by (simp_all add: columns_def)
  from Cons.prems(2) c(4) have i: "set (columns cols) \<inter> set (object_keys ?acc) = {}"
    unfolding k by (auto simp: columns_def)
  have "object_keys (schema_of ?acc cols) = object_keys ?acc @ columns cols"
    using d i l by (rule Cons.IH)
  then show ?case unfolding k by (simp add: schema_of_simps columns_def)
qed


lemma schema_of_frame:
  assumes "distinct (columns f)" and "''__proto__'' \<notin> set (columns f)"
  shows "set (object_keys (schema_of [] f)) = set (columns f)"
    and "distinct (object_keys (schema_of [] f))"
    and "s \<in> set f \<Longrightarrow> map_of (schema_of [] f) (name s) = Some (dtype s)"
    and "list_all (\<lambda>c. \<not> is_array_index c) (columns f) \<Longrightarrow> object_keys (schema_of [] f) = columns f"
proof -
  show "set (object_keys (schema_of [] f)) = set (columns f)"
    using assms(2) by (simp add: keys_schema_of object_keys_simps)
  show "distinct (object_keys (schema_of [] f))"
    by (rule distinct_schema_of) (simp add: object_keys_simps)
  show "map_of (schema_of [] f) (name s) = Some (dtype s)" if "s \<in> set f"
  proof -
    from that have "name s \<in> set (columns f)" by (simp add: columns_def)
    with assms(2) have "name s \<noteq> ''__proto__''" by auto
    with assms(1) that show ?thesis by (rule map_of_schema_of)
  qed
  show "object_keys (schema_of [] f) = columns f"
    if "list_all (\<lambda>c. \<not> is_array_index c) (columns f)"
  proof -
    from that assms(2)
    have "list_all (\<lambda>c. \<not> is_array_index c \<and> c \<noteq> ''__proto__'') (columns f)"
      by (auto simp: list_all_iff)
    with order_schema_of[of f "[]"] assms(1) show ?thesis
      by (simp add: object_keys_simps)
  qed
qed

text \<open>
  C4 (the code at the failing inputs): the schema is built in a plain object, so it is
  not always the column names in column order with their dtypes. A column named
  \<open>__proto__\<close> has no key in the schema; the columns \<open>b\<close>, \<open>0\<close> in this order have the keys
  \<open>0\<close>, \<open>b\<close>; and after \<open>replaceAtIdx\<close> has put a second column named \<open>bar\<close> in the place of
  \<open>foo\<close>, the three columns \<open>bar\<close>, \<open>bar\<close>, \<open>ham\<close> have a schema of two keys.
\<close>

theorem schema_plain_object:
  "columns [\<lparr>name = ''b'', dtype = Utf8, vals = []\<rparr>, \<lparr>name = ''__proto__'', dtype = Int64, vals = []\<rparr>]
     = [''b'', ''__proto__'']
   \<and> read_schema
       [[\<lparr>name = ''b'', dtype = Utf8, vals = []\<rparr>, \<lparr>name = ''__proto__'', dtype = Int64, vals = []\<rparr>]] 0
     = Inr (Inr [(''b'', Utf8)])
   \<and> read_schema
       [[\<lparr>name = ''b'', dtype = Utf8, vals = []\<rparr>, \<lparr>name = ''0'', dtype = Int64, vals = []\<rparr>]] 0
     = Inr (Inr [(''0'', Int64), (''b'', Utf8)])
   \<and> fst (replaceAtIdx [scenario] 0 0 bar_again) = Inr 0
   \<and> columns (snd (replaceAtIdx [scenario] 0 0 bar_again) ! 0) = [''bar'', ''bar'', ''ham'']
   \<and> read_schema (snd (replaceAtIdx [scenario] 0 0 bar_again)) 0
     = Inr (Inr [(''bar'', Int64), (''ham'', Utf8)])"
  by (simp add: columns_def read_schema_def schema_def schema_of_def getColumns_def obj_set_def
        is_array_index_def is_digit_def digits_value_def replaceAtIdx_def
        native_replaceAtIdx_def scenario_def bar_again_def height_def)

subsection \<open>The proxy: reading properties\<close>








subsection \<open>unique: keeping the first row twice\<close>

lemma keep_first_subset: "set (keep_first key seen rs) \<subseteq> set rs"
  by (induction rs arbitrary: seen) auto

lemma keep_first_unseen:
  "r \<in> set (keep_first key seen rs) \<Longrightarrow> key r \<notin> set seen"
proof (induction rs arbitrary: seen)
  case Nil
  then show ?case by simp
next
  case (Cons a rs)
  show ?case
  proof (cases "key a \<in> set seen")
    case True
    with Cons show ?thesis by simp
  next
    case False
    with Cons.prems have "r = a \<or> r \<in> set (keep_first key (key a # seen) rs)" by simp
    then show ?thesis
    proof
      assume "r = a"
      with False show ?thesis by simp
    next
      assume "r \<in> set (keep_first key (key a # seen) rs)"
      then have "key r \<notin> set (key a # seen)" by (rule Cons.IH)
      then show ?thesis by simp
    qed
  qed
qed

lemma keep_first_distinct: "distinct (map key (keep_first key seen rs))"
proof (induction rs arbitrary: seen)
  case Nil
  show ?case by simp
next
  case (Cons a rs)
  show ?case
  proof (cases "key a \<in> set seen")
    case True
    with Cons.IH show ?thesis by simp
  next
    case False
    have "key a \<notin> key ` set (keep_first key (key a # seen) rs)"
    proof
      assume "key a \<in> key ` set (keep_first key (key a # seen) rs)"
      then obtain r where r: "r \<in> set (keep_first key (key a # seen) rs)" "key r = key a"
        by auto
      from r(1) have "key r \<notin> set (key a # seen)" by (rule keep_first_unseen)
      with r(2) show False by simp
    qed
    with False Cons.IH[of "key a # seen"] show ?thesis by simp
  qed
qed

lemma keep_first_id:
  "distinct (map key rs) \<Longrightarrow> key ` set rs \<inter> set seen = {} \<Longrightarrow> keep_first key seen rs = rs"
proof (induction rs arbitrary: seen)
  case Nil
  show ?case by simp
next
  case (Cons a rs)
  from Cons.prems have a: "key a \<notin> set seen" by auto
  from Cons.prems have "distinct (map key rs)" and "key ` set rs \<inter> set (key a # seen) = {}"
    by auto
  then have "keep_first key (key a # seen) rs = rs" by (rule Cons.IH)
  with a show ?case by simp
qed

lemma keep_first_mset_id:
  assumes "mset rs = mset (keep_first key seen rs0)"
  shows "keep_first key [] rs = rs"
proof -
  from assms have "mset (map key rs) = mset (map key (keep_first key seen rs0))" by simp
  then have "distinct (map key rs) = distinct (map key (keep_first key seen rs0))"
    by (rule mset_eq_imp_distinct_iff)
  then have "distinct (map key rs)" by (simp add: keep_first_distinct)
  then show ?thesis by (rule keep_first_id) simp
qed


lemma length_rows: "length (rows d) = height d"
  by (simp add: rows_def)

lemma rows_nth:
  "i < height d \<Longrightarrow> j < length d \<Longrightarrow> rows d ! i ! j = vals (d ! j) ! i"
  by (simp add: rows_def)

lemma vals_from_rows:
  assumes "list_all (\<lambda>s. length (vals s) = height d) d" and "j < length d"
  shows "vals (d ! j) = map (\<lambda>i. rows d ! i ! j) [0..<height d]"
proof (rule nth_equalityI)
  from assms have l: "length (vals (d ! j)) = height d" by (simp add: list_all_length)
  then show "length (vals (d ! j)) = length (map (\<lambda>i. rows d ! i ! j) [0..<height d])" by simp
  fix i assume "i < length (vals (d ! j))"
  with l have "i < height d" by simp
  with assms(2) show "vals (d ! j) ! i = map (\<lambda>i. rows d ! i ! j) [0..<height d] ! i"
    by (simp add: rows_nth)
qed

lemma frame_eq_from_rows:
  assumes "columns d = columns e" and "map dtype d = map dtype e"
    and "list_all (\<lambda>s. length (vals s) = height d) d"
    and "list_all (\<lambda>s. length (vals s) = height e) e"
    and "rows d = rows e"
  shows "d = e"
proof (rule nth_equalityI)
  from assms(1) have "length (map name d) = length (map name e)" by (simp add: columns_def)
  then show len: "length d = length e" by simp
  from assms(5) have h: "height d = height e" using length_rows[of d] length_rows[of e] by simp
  fix j assume j: "j < length d"
  with len have j': "j < length e" by simp
  from assms(1) have "map name d ! j = map name e ! j" by (simp add: columns_def)
  with j j' have n: "name (d ! j) = name (e ! j)" by simp
  from assms(2) have "map dtype d ! j = map dtype e ! j" by simp
  with j j' have t: "dtype (d ! j) = dtype (e ! j)" by simp
  have "vals (d ! j) = map (\<lambda>i. rows d ! i ! j) [0..<height d]"
    using assms(3) j by (rule vals_from_rows)
  also have "\<dots> = map (\<lambda>i. rows e ! i ! j) [0..<height e]" using assms(5) h by simp
  also have "\<dots> = vals (e ! j)" using vals_from_rows[OF assms(4) j'] by simp
  finally have v: "vals (d ! j) = vals (e ! j)" .
  from n t v show "d ! j = e ! j" by simp
qed

lemma native_unique_iff:
  "native_unique f (mo, sub, k) d \<longleftrightarrow>
     (\<forall>c. sub \<noteq> Some (Column c))
     \<and> list_all (\<lambda>c. c \<in> set (columns f))
          (case sub of Some (Columns cs) \<Rightarrow> cs | _ \<Rightarrow> columns f)
     \<and> columns d = columns f \<and> map dtype d = map dtype f
     \<and> list_all (\<lambda>s. length (vals s) = height d) d
     \<and> (if mo then rows d = survivors (key_cells (columns f)
                (case sub of Some (Columns cs) \<Rightarrow> cs | _ \<Rightarrow> columns f)) k (rows f)
         else mset (rows d) = mset (survivors (key_cells (columns f)
                (case sub of Some (Columns cs) \<Rightarrow> cs | _ \<Rightarrow> columns f)) k (rows f)))"
proof (cases sub)
  case None
  then show ?thesis by (simp add: native_unique_def Let_def)
next
  case (Some x)
  then show ?thesis by (cases x) (simp_all add: native_unique_def Let_def)
qed

lemma native_unique_keep_first_idempotent:
  assumes "native_unique f (mo, sub, KeepFirst) d1"
  shows "native_unique d1 (mo, sub, KeepFirst) d2 \<longleftrightarrow> native_unique f (mo, sub, KeepFirst) d2"
    and "mo \<Longrightarrow> native_unique d1 (mo, sub, KeepFirst) d2 \<longleftrightarrow> d2 = d1"
    and "native_unique d1 (mo, sub, KeepFirst) d1"
proof -
  let ?ss = "\<lambda>g. case sub of Some (Columns cs) \<Rightarrow> cs | _ \<Rightarrow> columns g"
  let ?key = "key_cells (columns f) (?ss f)"
  let ?kept = "keep_first ?key [] (rows f)"
  from assms have nb: "\<forall>c. sub \<noteq> Some (Column c)"
    and ok: "list_all (\<lambda>c. c \<in> set (columns f)) (?ss f)"
    and cols: "columns d1 = columns f" and tys: "map dtype d1 = map dtype f"
    and wf: "list_all (\<lambda>s. length (vals s) = height d1) d1"
    and rs: "if mo then rows d1 = ?kept else mset (rows d1) = mset ?kept"
    by (simp_all add: native_unique_iff survivors_def)
  from cols have ss: "?ss d1 = ?ss f" by (simp split: option.split selection.split)
  from rs have "mset (rows d1) = mset ?kept" by (simp split: if_splits)
  then have again: "keep_first ?key [] (rows d1) = rows d1" by (rule keep_first_mset_id)
  have step: "native_unique d1 (mo, sub, KeepFirst) d \<longleftrightarrow>
      columns d = columns f \<and> map dtype d = map dtype f
      \<and> list_all (\<lambda>s. length (vals s) = height d) d
      \<and> (if mo then rows d = rows d1 else mset (rows d) = mset (rows d1))" for d
    using nb ok again by (simp add: native_unique_iff survivors_def cols tys ss)
  show "native_unique d1 (mo, sub, KeepFirst) d2 \<longleftrightarrow> native_unique f (mo, sub, KeepFirst) d2"
    unfolding step using nb ok rs
    by (auto simp: native_unique_iff survivors_def split: if_splits)
  show "native_unique d1 (mo, sub, KeepFirst) d1"
    unfolding step using cols tys wf by simp
  show "native_unique d1 (mo, sub, KeepFirst) d2 \<longleftrightarrow> d2 = d1" if mo
  proof
    assume "native_unique d1 (mo, sub, KeepFirst) d2"
    with that have "columns d2 = columns d1" "map dtype d2 = map dtype d1"
      "list_all (\<lambda>s. length (vals s) = height d2) d2" "rows d2 = rows d1"
      unfolding step by (simp_all add: cols tys)
    then show "d2 = d1" using wf by (intro frame_eq_from_rows) simp_all
  next
    assume "d2 = d1"
    then show "native_unique d1 (mo, sub, KeepFirst) d2"
      unfolding step using cols tys wf by simp
  qed
qed


lemma map_snd_zip_upt: "map (\<lambda>p. g (snd p)) (zip [0..<length f] f) = map g f"
  by (rule nth_equalityI) simp_all

lemma map_fst_zip_upt: "map (\<lambda>p. g (fst p)) (zip [0..<length f] f) = map g [0..<length f]"
  by (rule nth_equalityI) simp_all

lemma columns_with_rows: "columns (with_rows f rs) = columns f"
  using map_snd_zip_upt[of name f]
  by (simp add: columns_def with_rows_def case_prod_beta comp_def)

lemma dtypes_with_rows: "map dtype (with_rows f rs) = map dtype f"
  using map_snd_zip_upt[of dtype f]
  by (simp add: with_rows_def case_prod_beta comp_def)

lemma vals_with_rows:
  "s \<in> set (with_rows f rs) \<Longrightarrow> length (vals s) = length rs"
  by (auto simp: with_rows_def)

lemma height_with_rows: "f \<noteq> [] \<Longrightarrow> height (with_rows f rs) = length rs"
proof -
  assume "f \<noteq> []"
  then obtain s f' where f: "f = s # f'" by (cases f) auto
  have "[0..<length f] = 0 # [1..<length f]" unfolding f by (simp add: upt_rec)
  then show ?thesis unfolding f by (simp add: with_rows_def height_def)
qed

lemma rows_with_rows:
  assumes "f \<noteq> []" and "\<forall>r\<in>set rs. length r = length f"
  shows "rows (with_rows f rs) = rs"
proof (rule nth_equalityI)
  show l: "length (rows (with_rows f rs)) = length rs"
    using assms(1) by (simp add: length_rows height_with_rows)
  fix i assume "i < length (rows (with_rows f rs))"
  with l have i: "i < length rs" by simp
  with assms(2) have li: "length (rs ! i) = length f" by simp
  have "rows (with_rows f rs) ! i = map (\<lambda>s. vals s ! i) (with_rows f rs)"
    using i assms(1) by (simp add: rows_def height_with_rows)
  also have "\<dots> = map (\<lambda>p. rs ! i ! fst p) (zip [0..<length f] f)"
    using i by (simp add: with_rows_def case_prod_beta comp_def)
  also have "\<dots> = map (\<lambda>j. rs ! i ! j) [0..<length f]" by (rule map_fst_zip_upt)
  also have "\<dots> = rs ! i" using li map_nth[of "rs ! i"] by simp
  finally show "rows (with_rows f rs) ! i = rs ! i" .
qed

lemma length_row: "r \<in> set (rows f) \<Longrightarrow> length r = length f"
  by (auto simp: rows_def)

lemma survivors_subset: "set (survivors key k rs) \<subseteq> set rs"
proof (cases k)
  case KeepFirst
  then show ?thesis by (simp add: survivors_def keep_first_subset)
next
  case KeepLast
  show ?thesis
  proof
    fix x assume "x \<in> set (survivors key k rs)"
    with KeepLast obtain r where r: "r \<in> set (keep_first key [] rs)"
      and x: "x = last (filter (\<lambda>r'. key r' = key r) rs)"
      by (auto simp: survivors_def)
    from r keep_first_subset[of key "[]" rs] have "r \<in> set rs" by auto
    then have "filter (\<lambda>r'. key r' = key r) rs \<noteq> []" by (auto simp: filter_empty_conv)
    then have "x \<in> set (filter (\<lambda>r'. key r' = key r) rs)" unfolding x by (rule last_in_set)
    then show "x \<in> set rs" by simp
  qed
qed

lemma native_unique_returns:
  assumes "\<forall>c. sub \<noteq> Some (Column c)"
    and "list_all (\<lambda>c. c \<in> set (columns f)) (case sub of Some (Columns cs) \<Rightarrow> cs | _ \<Rightarrow> columns f)"
  shows "native_unique f (mo, sub, k)
     (with_rows f (survivors (key_cells (columns f)
        (case sub of Some (Columns cs) \<Rightarrow> cs | _ \<Rightarrow> columns f)) k (rows f)))"
proof -
  let ?kept = "survivors (key_cells (columns f)
        (case sub of Some (Columns cs) \<Rightarrow> cs | _ \<Rightarrow> columns f)) k (rows f)"
  have r: "rows (with_rows f ?kept) = ?kept"
  proof (cases "f = []")
    case True
    then have "rows f = []" by (simp add: rows_def height_def)
    with survivors_subset[of _ k "rows f"] have "?kept = []" by auto
    with True show ?thesis by (simp add: with_rows_def rows_def height_def)
  next
    case False
    have "\<forall>r\<in>set ?kept. length r = length f"
      using survivors_subset[of _ k "rows f"] length_row[of _ f] by blast
    with False show ?thesis by (rule rows_with_rows)
  qed
  have w: "list_all (\<lambda>s. length (vals s) = height (with_rows f ?kept)) (with_rows f ?kept)"
  proof (cases "f = []")
    case True
    then show ?thesis by (simp add: with_rows_def)
  next
    case False
    then show ?thesis by (simp add: list_all_iff vals_with_rows height_with_rows)
  qed
  from assms r w show ?thesis
    by (simp add: native_unique_iff columns_with_rows dtypes_with_rows)
qed


lemma unique_returns:
  assumes "unique_args opts subset' keep' = (mo, sub, k)" and "\<forall>c. sub \<noteq> Some (Column c)"
    and "list_all (\<lambda>c. c \<in> set (columns f)) (case sub of Some (Columns cs) \<Rightarrow> cs | _ \<Rightarrow> columns f)"
  shows "\<exists>d. unique f opts subset' keep' d"
  using native_unique_returns[OF assms(2,3)] by (auto simp: unique_def assms(1))

lemma rows_duplicated:
  "rows duplicated = [[Some (IntV 1), Some (StrV ''x'')], [Some (IntV 1), Some (StrV ''x'')],
     [Some (IntV 2), None], [Some (IntV 1), Some (StrV ''y'')]]"
  by (simp add: rows_def duplicated_def height_def upt_rec)

lemma rows_deduplicated:
  "rows deduplicated = [[Some (IntV 1), Some (StrV ''x'')],
     [Some (IntV 2), None], [Some (IntV 1), Some (StrV ''y'')]]"
  by (simp add: rows_def deduplicated_def height_def upt_rec)

lemma rows_deduplicated_other_order:
  "rows deduplicated_other_order = [[Some (IntV 2), None], [Some (IntV 1), Some (StrV ''y'')],
     [Some (IntV 1), Some (StrV ''x'')]]"
  by (simp add: rows_def deduplicated_other_order_def height_def upt_rec)

lemma unique_duplicated_ordered:
  "unique duplicated (Some (UniqueFlag True)) None None deduplicated"
  unfolding unique_def unique_args_def or_default_def
  by (simp add: native_unique_iff survivors_def rows_duplicated rows_deduplicated)
     (simp add: duplicated_def deduplicated_def columns_def key_cells_def height_def)

lemma unique_duplicated_unordered:
  "unique duplicated None None None deduplicated_other_order"
  unfolding unique_def unique_args_def or_default_def
  by (simp add: native_unique_iff survivors_def rows_duplicated rows_deduplicated_other_order)
     (simp add: duplicated_def deduplicated_other_order_def columns_def key_cells_def height_def)


lemma unique_duplicated_unordered_plain:
  "unique duplicated None None None deduplicated"
  unfolding unique_def unique_args_def or_default_def
  by (simp add: native_unique_iff survivors_def rows_duplicated rows_deduplicated)
     (simp add: duplicated_def deduplicated_def columns_def key_cells_def height_def)

text \<open>
  C8: for every DataFrame, applying \<open>unique\<close> with \<open>keep = first\<close> twice yields the same
  DataFrame as applying it once. The native \<open>unique\<close> leaves the order of the rows open
  unless \<open>maintainOrder\<close> is set, so the statement is about the frames that a call may
  return: when \<open>d1\<close> is a result of \<open>unique\<close> on \<open>f\<close>, the results of \<open>unique\<close> on \<open>d1\<close> are
  exactly the results of \<open>unique\<close> on \<open>f\<close>, \<open>d1\<close> itself is one of them, and with
  \<open>maintainOrder\<close> it is the only one.
\<close>

theorem unique_keep_first_idempotent:
  assumes "unique f opts subset' keep' d1"
    and "snd (snd (unique_args opts subset' keep')) = KeepFirst"
  shows "(unique d1 opts subset' keep' d2 \<longleftrightarrow> unique f opts subset' keep' d2)
    \<and> unique d1 opts subset' keep' d1
    \<and> (fst (unique_args opts subset' keep') \<longrightarrow> (unique d1 opts subset' keep' d2 \<longleftrightarrow> d2 = d1))"
proof -
  obtain mo sub k where a: "unique_args opts subset' keep' = (mo, sub, k)"
    by (cases "unique_args opts subset' keep'")
  with assms(2) have k: "k = KeepFirst" by simp
  from assms(1) have u: "native_unique f (mo, sub, KeepFirst) d1"
    by (simp add: unique_def a k)
  note i = native_unique_keep_first_idempotent[OF u]
  from i(1)[of d2] i(2)[of d2] i(3) show ?thesis
    by (simp add: unique_def a k)
qed

theorem unique_keep_first_idempotent_witness:
  "unique deduplicated (Some (UniqueFlag True)) None None deduplicated
   \<and> unique deduplicated_other_order None None None deduplicated_other_order
   \<and> unique deduplicated_other_order None None None deduplicated"
proof -
  have k1: "snd (snd (unique_args (Some (UniqueFlag True)) None None)) = KeepFirst"
    and k2: "snd (snd (unique_args None None None)) = KeepFirst"
    by (simp_all add: unique_args_def or_default_def)
  from unique_keep_first_idempotent[OF unique_duplicated_ordered k1]
  have 1: "unique deduplicated (Some (UniqueFlag True)) None None deduplicated" by blast
  from unique_keep_first_idempotent[OF unique_duplicated_unordered k2, of deduplicated]
    unique_duplicated_unordered_plain
  have 2: "unique deduplicated_other_order None None None deduplicated_other_order"
    and 3: "unique deduplicated_other_order None None None deduplicated" by blast+
  from 1 2 3 show ?thesis by blast
qed



end
